theory Spec2Isabelle
  imports Complex_Main "HOL-Library.Word"
begin

unbundle bit_operations_syntax

section \<open>The Aillio R1 V2 interface of \<^verbatim>\<open>src/aillio.py\<close>\<close>

text \<open>
  The class \<^verbatim>\<open>AillioR1Demo\<close> is embedded as a record of its attributes and one HOL
  function per method, with the state passed explicitly. What the methods do to the
  outside world is returned as a list of events; what the outside world answers (the
  clock, the two USB replies) is an argument of the tick.
\<close>

subsection \<open>Python values\<close>

type_synonym byte = "8 word"

text \<open>A command is a Python list of ints, as the class constants are.\<close>

type_synonym cmd = "int list"

datatype error = ValueError | OverflowError | IndexError | StructError

text \<open>
  An argument of a setter: a finite number (every finite float and every int is a
  rational), or one of the three non-finite floats.
\<close>

datatype pyfloat = Finite rat | PosInf | NegInf | NaN

text \<open>\<^verbatim>\<open>int(x)\<close> on a finite number drops the fraction, towards zero.\<close>

definition py_trunc :: "rat \<Rightarrow> int" where
  "py_trunc v = (if 0 \<le> v then \<lfloor>v\<rfloor> else \<lceil>v\<rceil>)"

text \<open>\<^verbatim>\<open>int(x)\<close>: ValueError on NaN, OverflowError on an infinity.\<close>

fun py_int :: "pyfloat \<Rightarrow> error + int" where
  "py_int (Finite v) = Inr (py_trunc v)"
| "py_int PosInf = Inl OverflowError"
| "py_int NegInf = Inl OverflowError"
| "py_int NaN = Inl ValueError"

text \<open>\<^verbatim>\<open>xs[i:j]\<close> for \<open>0 \<le> i \<le> j\<close>: never raises, may come out short.\<close>

definition slice :: "'a list \<Rightarrow> nat \<Rightarrow> nat \<Rightarrow> 'a list" where
  "slice xs i j = take (j - i) (drop i xs)"

text \<open>\<^verbatim>\<open>xs[i]\<close> for \<open>0 \<le> i\<close>: IndexError out of range.\<close>

definition index :: "'a list \<Rightarrow> nat \<Rightarrow> error + 'a" where
  "index xs i = (if i < length xs then Inr (xs ! i) else Inl IndexError)"

text \<open>
  \<^verbatim>\<open>round(unpack('f', b)[0], 1)\<close>: \<^verbatim>\<open>struct.error\<close> unless \<open>b\<close> has four bytes.
  The float that four bytes denote, rounded to one decimal, is the library's business:
  it is the parameter \<open>rd\<close>, and \<open>'f\<close> is the type of floats.
\<close>

definition unpack_f :: "(byte list \<Rightarrow> 'f) \<Rightarrow> byte list \<Rightarrow> error + 'f" where
  "unpack_f rd b = (if length b = 4 then Inr (rd b) else Inl StructError)"

text \<open>
  \<^verbatim>\<open>unpack('h', b)[0]\<close>: a signed 16-bit integer in the byte order of the host,
  \<^verbatim>\<open>struct.error\<close> unless \<open>b\<close> has two bytes.
\<close>

datatype byteorder = Little | Big

definition int16 :: "byte \<Rightarrow> byte \<Rightarrow> int" where
  "int16 hi lo = sint ((push_bit 8 (ucast hi) OR ucast lo) :: 16 word)"

definition unpack_h :: "byteorder \<Rightarrow> byte list \<Rightarrow> error + int" where
  "unpack_h bo b =
     (case b of
        [b0, b1] \<Rightarrow> Inr (case bo of Little \<Rightarrow> int16 b1 b0 | Big \<Rightarrow> int16 b0 b1)
      | _ \<Rightarrow> Inl StructError)"

subsection \<open>Constants of the class\<close>

definition AILLIO_CMD_STATUS1 :: cmd where
  "AILLIO_CMD_STATUS1 = [0x30, 0x01]"

definition AILLIO_CMD_STATUS2 :: cmd where
  "AILLIO_CMD_STATUS2 = [0x30, 0x03]"

definition AILLIO_CMD_HEATER_INCR :: cmd where
  "AILLIO_CMD_HEATER_INCR = [0x34, 0x01, 0xaa, 0xaa]"

definition AILLIO_CMD_HEATER_DECR :: cmd where
  "AILLIO_CMD_HEATER_DECR = [0x34, 0x02, 0xaa, 0xaa]"

definition AILLIO_CMD_FAN_INCR :: cmd where
  "AILLIO_CMD_FAN_INCR = [0x31, 0x01, 0xaa, 0xaa]"

definition AILLIO_CMD_FAN_DECR :: cmd where
  "AILLIO_CMD_FAN_DECR = [0x31, 0x02, 0xaa, 0xaa]"

definition AILLIO_STATE_OFF :: int where "AILLIO_STATE_OFF = 0x00"
definition AILLIO_STATE_PH :: int where "AILLIO_STATE_PH = 0x02"
definition AILLIO_STATE_CHARGE :: int where "AILLIO_STATE_CHARGE = 0x04"
definition AILLIO_STATE_ROASTING :: int where "AILLIO_STATE_ROASTING = 0x06"
definition AILLIO_STATE_COOLING :: int where "AILLIO_STATE_COOLING = 0x08"
definition AILLIO_STATE_SHUTDOWN :: int where "AILLIO_STATE_SHUTDOWN = 0x09"

subsection \<open>The object\<close>

text \<open>
  The attributes set by \<^verbatim>\<open>__init__\<close>. \<open>usbhandle\<close> tells whether a device handle is
  held (\<^verbatim>\<open>None\<close> otherwise). \<open>heater\<close>, \<open>fan\<close>, \<open>drum\<close>, \<open>fan_rpm\<close> and \<open>voltage\<close>
  start as the floats 0.0 or 1.0 and are only ever assigned Python ints afterwards
  (a byte of a reply, a signed 16-bit value, a clamped \<^verbatim>\<open>int(value)\<close>), so they are
  integers here and \<^verbatim>\<open>int(self.heater)\<close> is the field itself. Times are rationals.
  \<^verbatim>\<open>debug\<close> only switches printing and is left out.
\<close>

record 'f roaster =
  usbhandle :: bool
  bt :: 'f
  dt :: 'f
  bt_ror :: 'f
  fan_rpm :: int
  voltage :: int
  heater :: int
  fan :: int
  drum :: int
  state :: int
  state_str :: string
  roast_number :: int
  command_queue :: "cmd list"
  last_status_update :: rat
  status_update_interval :: rat

text \<open>\<^verbatim>\<open>__init__\<close>; \<open>zero\<close> is the float 0.0.\<close>

definition init :: "'f \<Rightarrow> 'f roaster" where
  "init zero =
     \<lparr>usbhandle = False, bt = zero, dt = zero, bt_ror = zero, fan_rpm = 0, voltage = 0,
      heater = 0, fan = 1, drum = 1, state = AILLIO_STATE_OFF, state_str = ''off'',
      roast_number = -1, command_queue = [], last_status_update = 0,
      status_update_interval = 1 / 10\<rparr>"

subsection \<open>Transport\<close>

text \<open>
  What a tick does outside the object: a write of a command to the device, a read of up
  to \<open>n\<close> bytes, the settle delay \<^verbatim>\<open>time.sleep(0.01)\<close>.
\<close>

datatype event = Write cmd | Read nat | Sleep

text \<open>
  \<^verbatim>\<open>_send_command\<close>: writes when a handle is held; an exception of the write is
  logged and swallowed, so the object is the same either way.
\<close>

definition send_command :: "'f roaster \<Rightarrow> cmd \<Rightarrow> event list" where
  "send_command s c = (if usbhandle s then [Write c] else [])"

text \<open>
  \<^verbatim>\<open>_read_reply\<close>: \<open>r\<close> is what the device read gives, \<open>None\<close> when it raises;
  without a handle nothing is read and the result is \<^verbatim>\<open>None\<close>.
\<close>

definition read_reply :: "'f roaster \<Rightarrow> nat \<Rightarrow> byte list option \<Rightarrow> byte list option \<times> event list" where
  "read_reply s n r = (if usbhandle s then (r, [Read n]) else (None, []))"

text \<open>Truth value of a reply: \<^verbatim>\<open>None\<close> and the empty array are false.\<close>

definition truthy :: "byte list option \<Rightarrow> bool" where
  "truthy r = (case r of None \<Rightarrow> False | Some xs \<Rightarrow> xs \<noteq> [])"

text \<open>\<^verbatim>\<open>_process_command_queue\<close>\<close>

definition process_command_queue :: "'f roaster \<Rightarrow> 'f roaster \<times> event list" where
  "process_command_queue s =
     (case command_queue s of
        [] \<Rightarrow> (s, [])
      | c # q \<Rightarrow> (s\<lparr>command_queue := q\<rparr>, send_command s c @ [Sleep]))"

subsection \<open>Status\<close>

text \<open>\<^verbatim>\<open>_update_state_string\<close>\<close>

definition update_state_string :: "'f roaster \<Rightarrow> 'f roaster" where
  "update_state_string s =
     (if state s = AILLIO_STATE_OFF then s\<lparr>state_str := ''off''\<rparr>
      else if state s = AILLIO_STATE_PH then s\<lparr>state_str := ''pre-heating''\<rparr>
      else if state s = AILLIO_STATE_CHARGE then s\<lparr>state_str := ''charge''\<rparr>
      else if state s = AILLIO_STATE_ROASTING then s\<lparr>state_str := ''roasting''\<rparr>
      else if state s = AILLIO_STATE_COOLING then s\<lparr>state_str := ''cooling''\<rparr>
      else if state s = AILLIO_STATE_SHUTDOWN then s\<lparr>state_str := ''shutdown''\<rparr>
      else s)"

text \<open>
  The body of \<^verbatim>\<open>if valid == 10:\<close> in \<^verbatim>\<open>_update_status\<close>, one assignment after the
  other. An exception leaves the \<^verbatim>\<open>try\<close> block at once, with the assignments made so
  far in place, and the method returns \<^verbatim>\<open>False\<close>.
\<close>

definition parse_status ::
  "(byte list \<Rightarrow> 'f) \<Rightarrow> byteorder \<Rightarrow> byte list \<Rightarrow> 'f roaster \<Rightarrow> bool \<times> 'f roaster" where
  "parse_status rd bo st s0 =
     (case unpack_f rd (slice st 36 40) of Inl e \<Rightarrow> (False, s0) | Inr v1 \<Rightarrow>
     (let s1 = s0\<lparr>bt := v1\<rparr> in
      case unpack_f rd (slice st 4 8) of Inl e \<Rightarrow> (False, s1) | Inr v2 \<Rightarrow>
     (let s2 = s1\<lparr>bt_ror := v2\<rparr> in
      case unpack_f rd (slice st 8 12) of Inl e \<Rightarrow> (False, s2) | Inr v3 \<Rightarrow>
     (let s3 = s2\<lparr>dt := v3\<rparr> in
      case index st 26 of Inl e \<Rightarrow> (False, s3) | Inr b4 \<Rightarrow>
     (let s4 = s3\<lparr>fan := uint b4\<rparr> in
      case index st 27 of Inl e \<Rightarrow> (False, s4) | Inr b5 \<Rightarrow>
     (let s5 = s4\<lparr>heater := uint b5\<rparr> in
      case index st 28 of Inl e \<Rightarrow> (False, s5) | Inr b6 \<Rightarrow>
     (let s6 = s5\<lparr>drum := uint b6\<rparr> in
      case index st 29 of Inl e \<Rightarrow> (False, s6) | Inr b7 \<Rightarrow>
     (let s7 = s6\<lparr>state := uint b7\<rparr> in
      case unpack_h bo (slice st 44 46) of Inl e \<Rightarrow> (False, s7) | Inr h8 \<Rightarrow>
     (let s8 = s7\<lparr>fan_rpm := h8\<rparr> in
      case unpack_h bo (slice st 48 50) of Inl e \<Rightarrow> (False, s8) | Inr h9 \<Rightarrow>
     (let s9 = s8\<lparr>voltage := h9\<rparr> in
      (True, update_state_string s9)))))))))))"

text \<open>
  \<^verbatim>\<open>_update_status\<close>: \<open>now\<close> is \<^verbatim>\<open>time.time()\<close>, \<open>r1\<close> and \<open>r2\<close> are what the device
  gives to the first and to the second read.
\<close>

definition update_status ::
  "(byte list \<Rightarrow> 'f) \<Rightarrow> byteorder \<Rightarrow> rat \<Rightarrow> byte list option \<Rightarrow> byte list option \<Rightarrow>
   'f roaster \<Rightarrow> bool \<times> 'f roaster \<times> event list" where
  "update_status rd bo now r1 r2 s =
     (if now - last_status_update s < status_update_interval s then (False, s, [])
      else
        (let s' = s\<lparr>last_status_update := now\<rparr>;
             w1 = send_command s' AILLIO_CMD_STATUS1;
             (state1, e1) = read_reply s' 64 r1;
             w2 = send_command s' AILLIO_CMD_STATUS2;
             (state2, e2) = read_reply s' 64 r2;
             ev = w1 @ e1 @ w2 @ e2
         in if truthy state1 \<and> truthy state2 then
              (case (state1, state2) of
                 (Some a1, Some a2) \<Rightarrow>
                   (let st = a1 @ a2 in
                    case index st 41 of
                      Inl e \<Rightarrow> (False, s', ev)
                    | Inr valid \<Rightarrow>
                        if valid = 10 then
                          (let (ok, s'') = parse_status rd bo st s' in (ok, s'', ev))
                        else (False, s', ev))
               | _ \<Rightarrow> (False, s', ev))
            else (False, s', ev)))"

text \<open>\<^verbatim>\<open>update_readings\<close>: one tick.\<close>

definition update_readings ::
  "(byte list \<Rightarrow> 'f) \<Rightarrow> byteorder \<Rightarrow> rat \<Rightarrow> byte list option \<Rightarrow> byte list option \<Rightarrow>
   'f roaster \<Rightarrow> bool \<times> 'f roaster \<times> event list" where
  "update_readings rd bo now r1 r2 s =
     (let (s1, ev1) = process_command_queue s;
          (ok, s2, ev2) = update_status rd bo now r1 r2 s1
      in (ok, s2, ev1 @ ev2))"

subsection \<open>Setters\<close>

text \<open>\<^verbatim>\<open>for _ in range(n): self.command_queue.append(c)\<close>\<close>

fun append_times :: "nat \<Rightarrow> cmd \<Rightarrow> cmd list \<Rightarrow> cmd list" where
  "append_times 0 c q = q"
| "append_times (Suc n) c q = append_times n c (q @ [c])"

text \<open>\<^verbatim>\<open>set_heater\<close>; an exception of \<^verbatim>\<open>int(value)\<close> leaves before anything changes.\<close>

definition set_heater :: "pyfloat \<Rightarrow> 'f roaster \<Rightarrow> error + 'f roaster" where
  "set_heater val s =
     (case py_int val of
        Inl e \<Rightarrow> Inl e
      | Inr i \<Rightarrow>
          (let v = max 0 (min 9 i);
               current = heater s;
               diff = \<bar>current - v\<bar>
           in if diff = 0 then Inr s
              else if current > v then
                Inr (s\<lparr>command_queue :=
                         append_times (nat diff) AILLIO_CMD_HEATER_DECR (command_queue s),
                       heater := v\<rparr>)
              else
                Inr (s\<lparr>command_queue :=
                         append_times (nat diff) AILLIO_CMD_HEATER_INCR (command_queue s),
                       heater := v\<rparr>)))"

text \<open>\<^verbatim>\<open>set_fan\<close>\<close>

definition set_fan :: "pyfloat \<Rightarrow> 'f roaster \<Rightarrow> error + 'f roaster" where
  "set_fan val s =
     (case py_int val of
        Inl e \<Rightarrow> Inl e
      | Inr i \<Rightarrow>
          (let v = max 1 (min 12 i);
               current = fan s;
               diff = \<bar>current - v\<bar>
           in if diff = 0 then Inr s
              else if current > v then
                Inr (s\<lparr>command_queue :=
                         append_times (nat diff) AILLIO_CMD_FAN_DECR (command_queue s),
                       fan := v\<rparr>)
              else
                Inr (s\<lparr>command_queue :=
                         append_times (nat diff) AILLIO_CMD_FAN_INCR (command_queue s),
                       fan := v\<rparr>)))"

text \<open>\<^verbatim>\<open>set_drum\<close>\<close>

definition set_drum :: "pyfloat \<Rightarrow> 'f roaster \<Rightarrow> error + 'f roaster" where
  "set_drum val s =
     (case py_int val of
        Inl e \<Rightarrow> Inl e
      | Inr i \<Rightarrow>
          (let v = max 1 (min 9 i)
           in Inr (s\<lparr>command_queue := command_queue s @ [[0x32, 0x01, v, 0x00]],
                     drum := v\<rparr>)))"

subsection \<open>What the properties speak of\<close>

text \<open>
  The fields of the status model: bean temperature, rate of rise, drum temperature, fan,
  heater, drum, state, state label, fan RPM, voltage.
\<close>

definition status_model ::
  "'f roaster \<Rightarrow> 'f \<times> 'f \<times> 'f \<times> int \<times> int \<times> int \<times> int \<times> string \<times> int \<times> int" where
  "status_model s =
     (bt s, bt_ror s, dt s, fan s, heater s, drum s, state s, state_str s, fan_rpm s, voltage s)"

text \<open>The ranges of the three held setpoints.\<close>

definition setpoints_in_range :: "'f roaster \<Rightarrow> bool" where
  "setpoints_in_range s \<longleftrightarrow>
     0 \<le> heater s \<and> heater s \<le> 9 \<and> 1 \<le> fan s \<and> fan s \<le> 12 \<and> 1 \<le> drum s \<and> drum s \<le> 9"

text \<open>The range of an unsigned byte, for the same three fields.\<close>

definition setpoints_in_byte_range :: "'f roaster \<Rightarrow> bool" where
  "setpoints_in_byte_range s \<longleftrightarrow>
     0 \<le> heater s \<and> heater s \<le> 255 \<and> 0 \<le> fan s \<and> fan s \<le> 255 \<and> 0 \<le> drum s \<and> drum s \<le> 255"

text \<open>The two's complement reading of a 16-bit pattern \<open>u\<close>, \<open>0 \<le> u < 65536\<close>.\<close>

definition signed16 :: "int \<Rightarrow> int" where
  "signed16 u = (if u < 32768 then u else u - 65536)"

text \<open>The six known device states and their labels, as a table.\<close>

definition state_labels :: "(int \<times> string) list" where
  "state_labels =
     [(0x00, ''off''), (0x02, ''pre-heating''), (0x04, ''charge''),
      (0x06, ''roasting''), (0x08, ''cooling''), (0x09, ''shutdown'')]"

text \<open>The I/O of one status round trip: request, read, request, read.\<close>

definition status_round_trip :: "event list" where
  "status_round_trip =
     [Write AILLIO_CMD_STATUS1, Read 64, Write AILLIO_CMD_STATUS2, Read 64]"

section \<open>Properties\<close>

subsection \<open>Step controller\<close>

lemma append_times_replicate: "append_times n c q = q @ replicate n c"
  by (induction n arbitrary: q) (simp_all add: replicate_app_Cons_same)

lemma set_heater_clamped:
  assumes "py_int val = Inr i" and "max 0 (min 9 i) = c"
  shows "set_heater val s =
     Inr (s\<lparr>command_queue :=
              command_queue s @
              replicate (nat \<bar>c - heater s\<bar>)
                (if heater s < c then AILLIO_CMD_HEATER_INCR else AILLIO_CMD_HEATER_DECR),
            heater := c\<rparr>)"
proof -
  consider "heater s = c" | "heater s < c" | "c < heater s" by linarith
  then show ?thesis
  proof cases
    case 1
    with assms show ?thesis by (simp add: set_heater_def Let_def)
  next
    case 2
    with assms show ?thesis
      by (simp add: set_heater_def Let_def append_times_replicate abs_minus_commute)
  next
    case 3
    with assms show ?thesis
      by (simp add: set_heater_def Let_def append_times_replicate abs_minus_commute)
  qed
qed

lemma set_fan_clamped:
  assumes "py_int val = Inr i" and "max 1 (min 12 i) = c"
  shows "set_fan val s =
     Inr (s\<lparr>command_queue :=
              command_queue s @
              replicate (nat \<bar>c - fan s\<bar>)
                (if fan s < c then AILLIO_CMD_FAN_INCR else AILLIO_CMD_FAN_DECR),
            fan := c\<rparr>)"
proof -
  consider "fan s = c" | "fan s < c" | "c < fan s" by linarith
  then show ?thesis
  proof cases
    case 1
    with assms show ?thesis by (simp add: set_fan_def Let_def)
  next
    case 2
    with assms show ?thesis
      by (simp add: set_fan_def Let_def append_times_replicate abs_minus_commute)
  next
    case 3
    with assms show ?thesis
      by (simp add: set_fan_def Let_def append_times_replicate abs_minus_commute)
  qed
qed

text \<open>
  C1: \<^verbatim>\<open>set_heater\<close> with a finite target appends exactly
  \<open>\<bar>clamp(target) - current\<bar>\<close> step commands to the back of the queue, all increments when
  the clamped target (truncated, then clamped to 0..9) is above the held value and all
  decrements when it is below, and the held heater is the clamped target when the call
  returns; everything else is untouched. \<^verbatim>\<open>set_fan\<close> does the same with 1..12. No
  device traffic is involved: the setters do not take part in any I/O.
\<close>

theorem set_heater_fan_steps:
  "set_heater (Finite t) s =
     Inr (s\<lparr>command_queue :=
              command_queue s @
              replicate (nat \<bar>max 0 (min 9 (py_trunc t)) - heater s\<bar>)
                (if heater s < max 0 (min 9 (py_trunc t)) then AILLIO_CMD_HEATER_INCR
                 else AILLIO_CMD_HEATER_DECR),
            heater := max 0 (min 9 (py_trunc t))\<rparr>)
   \<and> set_fan (Finite t) s =
     Inr (s\<lparr>command_queue :=
              command_queue s @
              replicate (nat \<bar>max 1 (min 12 (py_trunc t)) - fan s\<bar>)
                (if fan s < max 1 (min 12 (py_trunc t)) then AILLIO_CMD_FAN_INCR
                 else AILLIO_CMD_FAN_DECR),
            fan := max 1 (min 12 (py_trunc t))\<rparr>)"
proof
  show "set_heater (Finite t) s =
     Inr (s\<lparr>command_queue :=
              command_queue s @
              replicate (nat \<bar>max 0 (min 9 (py_trunc t)) - heater s\<bar>)
                (if heater s < max 0 (min 9 (py_trunc t)) then AILLIO_CMD_HEATER_INCR
                 else AILLIO_CMD_HEATER_DECR),
            heater := max 0 (min 9 (py_trunc t))\<rparr>)"
    by (rule set_heater_clamped [where i = "py_trunc t"]) simp_all
  show "set_fan (Finite t) s =
     Inr (s\<lparr>command_queue :=
              command_queue s @
              replicate (nat \<bar>max 1 (min 12 (py_trunc t)) - fan s\<bar>)
                (if fan s < max 1 (min 12 (py_trunc t)) then AILLIO_CMD_FAN_INCR
                 else AILLIO_CMD_FAN_DECR),
            fan := max 1 (min 12 (py_trunc t))\<rparr>)"
    by (rule set_fan_clamped [where i = "py_trunc t"]) simp_all
qed

text \<open>
  The scenarios of the specification: heater 3 to 9 queues six increments, fan 1 to 20
  clamps to 12 and queues eleven increments.
\<close>

theorem set_heater_fan_steps_witness:
  "command_queue (projr (set_heater (Finite 9) ((init (0::rat))\<lparr>heater := 3\<rparr>)))
     = replicate 6 AILLIO_CMD_HEATER_INCR
   \<and> heater (projr (set_heater (Finite 9) ((init (0::rat))\<lparr>heater := 3\<rparr>))) = 9
   \<and> command_queue (projr (set_fan (Finite 20) (init (0::rat)))) = replicate 11 AILLIO_CMD_FAN_INCR
   \<and> fan (projr (set_fan (Finite 20) (init (0::rat)))) = 12"
  using set_heater_fan_steps [of 9 "(init (0::rat))\<lparr>heater := 3\<rparr>"]
    set_heater_fan_steps [of 20 "init (0::rat)"]
  by (simp add: init_def py_trunc_def)

lemma py_trunc_of_int: "py_trunc (of_int n) = n"
  by (simp add: py_trunc_def)

lemma py_trunc_abs_le: "\<bar>of_int (py_trunc v)\<bar> \<le> \<bar>v\<bar>"
proof (cases "0 \<le> v")
  case True
  then show ?thesis by (simp add: py_trunc_def)
next
  case False
  then have "v \<le> of_int \<lceil>v\<rceil>" and "\<lceil>v\<rceil> \<le> 0"
    by (simp_all add: ceiling_le_iff)
  with False show ?thesis by (simp add: py_trunc_def)
qed

lemma py_trunc_close: "\<bar>v - of_int (py_trunc v)\<bar> < 1"
proof (cases "0 \<le> v")
  case True
  have "of_int \<lfloor>v\<rfloor> \<le> v" and "v < of_int \<lfloor>v\<rfloor> + 1" by linarith+
  with True show ?thesis by (simp add: py_trunc_def abs_less_iff)
next
  case False
  have "v \<le> of_int \<lceil>v\<rceil>" and "of_int \<lceil>v\<rceil> - 1 < v" by linarith+
  with False show ?thesis by (simp add: py_trunc_def abs_less_iff)
qed

text \<open>
  C10: every setter truncates a fractional argument towards zero before it clamps: the
  call with \<open>v\<close> is the call with \<open>int(v)\<close>, the held value afterwards is the clamp
  of the truncation (0..9 for the heater, 1..12 for the fan, 1..9 for the drum), the
  truncation is the integer no larger in magnitude than \<open>v\<close> and less than 1 away from
  it, and \<^verbatim>\<open>set_heater(8.9)\<close> leaves a held heater of 8. (On NaN and the infinities
  \<^verbatim>\<open>int\<close> raises, and so does the setter.)
\<close>

theorem setters_truncate_toward_zero:
  "set_heater (Finite v) s = set_heater (Finite (of_int (py_trunc v))) s
   \<and> set_fan (Finite v) s = set_fan (Finite (of_int (py_trunc v))) s
   \<and> set_drum (Finite v) s = set_drum (Finite (of_int (py_trunc v))) s
   \<and> (\<exists>s'. set_heater (Finite v) s = Inr s' \<and> heater s' = max 0 (min 9 (py_trunc v)))
   \<and> (\<exists>s'. set_fan (Finite v) s = Inr s' \<and> fan s' = max 1 (min 12 (py_trunc v)))
   \<and> (\<exists>s'. set_drum (Finite v) s = Inr s' \<and> drum s' = max 1 (min 9 (py_trunc v)))
   \<and> \<bar>of_int (py_trunc v)\<bar> \<le> \<bar>v\<bar> \<and> \<bar>v - of_int (py_trunc v)\<bar> < 1
   \<and> (\<exists>s'. set_heater (Finite (89 / 10)) s = Inr s' \<and> heater s' = 8)"
proof -
  have a: "set_heater (Finite v) s = set_heater (Finite (of_int (py_trunc v))) s"
    by (simp add: set_heater_def py_trunc_of_int)
  have b: "set_fan (Finite v) s = set_fan (Finite (of_int (py_trunc v))) s"
    by (simp add: set_fan_def py_trunc_of_int)
  have c: "set_drum (Finite v) s = set_drum (Finite (of_int (py_trunc v))) s"
    by (simp add: set_drum_def py_trunc_of_int)
  have h: "\<exists>s'. set_heater (Finite w) s = Inr s' \<and> heater s' = max 0 (min 9 (py_trunc w))" for w
    by (cases "heater s = max 0 (min 9 (py_trunc w))")
       (auto simp add: set_heater_def Let_def)
  have f: "\<exists>s'. set_fan (Finite v) s = Inr s' \<and> fan s' = max 1 (min 12 (py_trunc v))"
    by (cases "fan s = max 1 (min 12 (py_trunc v))")
       (auto simp add: set_fan_def Let_def)
  have d: "\<exists>s'. set_drum (Finite v) s = Inr s' \<and> drum s' = max 1 (min 9 (py_trunc v))"
    by (simp add: set_drum_def Let_def)
  have t: "py_trunc (89 / 10) = 8"
    by (simp add: py_trunc_def floor_eq_iff)
  have e: "\<exists>s'. set_heater (Finite (89 / 10)) s = Inr s' \<and> heater s' = 8"
    using h [of "89 / 10"] by (simp add: t)
  from a b c h [of v] f d e py_trunc_abs_le [of v] py_trunc_close [of v]
  show ?thesis by blast
qed

text \<open>
  C2, as stated, fails for the drum: \<^verbatim>\<open>set_drum\<close> never looks at the held value.
  With a held drum of 5, \<^verbatim>\<open>set_drum(5)\<close> queues one more command.
\<close>

theorem set_drum_idempotent_counterexample:
  "max 1 (min 9 (py_trunc 5)) = drum ((init (0::rat))\<lparr>drum := 5\<rparr>)
   \<and> set_drum (Finite 5) ((init (0::rat))\<lparr>drum := 5\<rparr>) \<noteq> Inr ((init 0)\<lparr>drum := 5\<rparr>)
   \<and> set_drum (Finite 5) ((init (0::rat))\<lparr>drum := 5\<rparr>)
       = Inr ((init 0)\<lparr>drum := 5, command_queue := [[0x32, 0x01, 5, 0x00]]\<rparr>)"
  by (simp add: set_drum_def init_def py_trunc_def)

text \<open>
  C2, amended: when the clamped target equals the held value, \<^verbatim>\<open>set_heater\<close> and
  \<^verbatim>\<open>set_fan\<close> change nothing at all (no command, same queue, same fields);
  \<^verbatim>\<open>set_drum\<close> appends exactly one absolute-set command carrying that value and
  changes nothing else.
\<close>

theorem setters_at_held_value:
  "(max 0 (min 9 (py_trunc t)) = heater s \<longrightarrow> set_heater (Finite t) s = Inr s)
   \<and> (max 1 (min 12 (py_trunc t)) = fan s \<longrightarrow> set_fan (Finite t) s = Inr s)
   \<and> (max 1 (min 9 (py_trunc t)) = drum s \<longrightarrow>
        set_drum (Finite t) s =
          Inr (s\<lparr>command_queue := command_queue s @ [[0x32, 0x01, drum s, 0x00]]\<rparr>))"
  by (auto simp add: set_heater_def set_fan_def set_drum_def Let_def)

theorem setters_at_held_value_witness:
  "max 0 (min 9 (py_trunc 3)) = heater ((init (0::rat))\<lparr>heater := 3, fan := 3, drum := 3\<rparr>)
   \<and> max 1 (min 12 (py_trunc 3)) = fan ((init (0::rat))\<lparr>heater := 3, fan := 3, drum := 3\<rparr>)
   \<and> max 1 (min 9 (py_trunc 3)) = drum ((init (0::rat))\<lparr>heater := 3, fan := 3, drum := 3\<rparr>)
   \<and> set_heater (Finite 3) ((init (0::rat))\<lparr>heater := 3, fan := 3, drum := 3\<rparr>)
       = Inr ((init 0)\<lparr>heater := 3, fan := 3, drum := 3\<rparr>)
   \<and> set_fan (Finite 3) ((init (0::rat))\<lparr>heater := 3, fan := 3, drum := 3\<rparr>)
       = Inr ((init 0)\<lparr>heater := 3, fan := 3, drum := 3\<rparr>)
   \<and> set_drum (Finite 3) ((init (0::rat))\<lparr>heater := 3, fan := 3, drum := 3\<rparr>)
       = Inr ((init 0)\<lparr>heater := 3, fan := 3, drum := 3, command_queue := [[0x32, 0x01, 3, 0x00]]\<rparr>)"
  using setters_at_held_value [of 3 "(init (0::rat))\<lparr>heater := 3, fan := 3, drum := 3\<rparr>"]
  by (simp add: init_def py_trunc_def)

subsection \<open>Byte decoding\<close>

lemma slice_pair: "i + 2 \<le> length xs \<Longrightarrow> slice xs i (i + 2) = [xs ! i, xs ! (i + 1)]"
  by (simp add: slice_def numeral_eq_Suc take_Suc_conv_app_nth)

lemma uint_cat16:
  "uint ((push_bit 8 (ucast hi) OR ucast lo) :: 16 word) = 256 * uint hi + uint lo"
  for hi lo :: byte
proof -
  have b: "uint hi < 256" "uint lo < 256" "0 \<le> uint hi" "0 \<le> uint lo"
    using uint_bounded [of hi] uint_bounded [of lo] by simp_all
  have "(push_bit 8 (ucast hi) OR ucast lo :: 16 word) = word_cat hi lo"
    by (simp add: word_cat_eq_push_bit_or)
  also have "uint (word_cat hi lo :: 16 word) = take_bit 16 (concat_bit 8 (uint lo) (uint hi))"
    by (simp add: word_cat_eq' uint_word_of_int_eq)
  also have "concat_bit 8 (uint lo) (uint hi) = uint lo + 256 * uint hi"
    using b by (simp add: concat_bit_eq take_bit_int_eq_self push_bit_eq_mult)
  also have "take_bit 16 (uint lo + 256 * uint hi) = uint lo + 256 * uint hi"
    using b by (simp add: take_bit_int_eq_self)
  finally show ?thesis by simp
qed

lemma int16_arith:
  "int16 hi lo =
     (if 256 * uint hi + uint lo < 32768 then 256 * uint hi + uint lo
      else 256 * uint hi + uint lo - 65536)"
proof -
  have b: "uint hi < 256" "uint lo < 256" "0 \<le> uint hi" "0 \<le> uint lo"
    using uint_bounded [of hi] uint_bounded [of lo] by simp_all
  have "int16 hi lo = signed_take_bit 15 (256 * uint hi + uint lo)"
    by (simp add: int16_def sint_uint uint_cat16)
  also have "\<dots> = take_bit 16 (256 * uint hi + uint lo + 32768) - 32768"
    by (simp add: signed_take_bit_eq_take_bit_shift)
  also have "\<dots> = (256 * uint hi + uint lo + 32768) mod 65536 - 32768"
    by (simp add: take_bit_eq_mod)
  finally have e: "int16 hi lo = (256 * uint hi + uint lo + 32768) mod 65536 - 32768" .
  define x where "x = 256 * uint hi + uint lo"
  have r: "0 \<le> x" "x < 65536"
    using b unfolding x_def by linarith+
  have "(x + 32768) mod 65536 - 32768 = (if x < 32768 then x else x - 65536)"
  proof (cases "x < 32768")
    case True
    with r have "(x + 32768) mod 65536 = x + 32768"
      by simp
    with True show ?thesis by simp
  next
    case False
    have "x + 32768 = x - 32768 + 65536"
      by linarith
    then have "(x + 32768) mod 65536 = (x - 32768 + 65536) mod 65536"
      by (rule arg_cong)
    also have "\<dots> = (x - 32768) mod 65536"
      by (simp only: mod_add_self2)
    also have "\<dots> = x - 32768"
      using r False by simp
    finally show ?thesis
      using False by simp
  qed
  with e show ?thesis
    unfolding x_def by simp
qed

subsection \<open>The status update, case by case\<close>

lemma update_status_gated:
  "now - last_status_update s < status_update_interval s \<Longrightarrow>
   update_status rd bo now r1 r2 s = (False, s, [])"
  by (simp add: update_status_def)

lemma update_status_no_handle:
  "\<not> now - last_status_update s < status_update_interval s \<Longrightarrow> \<not> usbhandle s \<Longrightarrow>
   update_status rd bo now r1 r2 s = (False, s\<lparr>last_status_update := now\<rparr>, [])"
  by (simp add: update_status_def send_command_def read_reply_def truthy_def)

lemma update_status_falsy:
  "\<not> now - last_status_update s < status_update_interval s \<Longrightarrow> usbhandle s \<Longrightarrow>
   \<not> truthy r1 \<or> \<not> truthy r2 \<Longrightarrow>
   update_status rd bo now r1 r2 s =
     (False, s\<lparr>last_status_update := now\<rparr>, status_round_trip)"
  by (auto simp add: update_status_def send_command_def read_reply_def status_round_trip_def)

lemma update_status_invalid:
  "\<not> now - last_status_update s < status_update_interval s \<Longrightarrow> usbhandle s \<Longrightarrow>
   length (a1 @ a2) \<le> 41 \<or> (a1 @ a2) ! 41 \<noteq> 10 \<Longrightarrow>
   update_status rd bo now (Some a1) (Some a2) s =
     (False, s\<lparr>last_status_update := now\<rparr>, status_round_trip)"
  by (auto simp add: update_status_def send_command_def read_reply_def status_round_trip_def
        index_def truthy_def Let_def)

lemma update_status_valid:
  "\<not> now - last_status_update s < status_update_interval s \<Longrightarrow> usbhandle s \<Longrightarrow>
   a1 \<noteq> [] \<Longrightarrow> a2 \<noteq> [] \<Longrightarrow> 41 < length (a1 @ a2) \<Longrightarrow> (a1 @ a2) ! 41 = 10 \<Longrightarrow>
   update_status rd bo now (Some a1) (Some a2) s =
     (fst (parse_status rd bo (a1 @ a2) (s\<lparr>last_status_update := now\<rparr>)),
      snd (parse_status rd bo (a1 @ a2) (s\<lparr>last_status_update := now\<rparr>)),
      status_round_trip)"
  by (simp add: update_status_def send_command_def read_reply_def status_round_trip_def
        index_def truthy_def Let_def split_beta)

lemma parse_status_frame:
  "usbhandle (snd (parse_status rd bo st s)) = usbhandle s
   \<and> command_queue (snd (parse_status rd bo st s)) = command_queue s
   \<and> last_status_update (snd (parse_status rd bo st s)) = last_status_update s
   \<and> status_update_interval (snd (parse_status rd bo st s)) = status_update_interval s
   \<and> roast_number (snd (parse_status rd bo st s)) = roast_number s"
  by (simp add: parse_status_def update_state_string_def Let_def split: sum.splits)

lemma slice_four:
  "i + 4 \<le> length xs \<Longrightarrow>
   slice xs i (i + 4) = [xs ! i, xs ! (i + 1), xs ! (i + 2), xs ! (i + 3)]"
  by (simp add: slice_def numeral_eq_Suc take_Suc_conv_app_nth)

lemma parse_status_complete:
  assumes "50 \<le> length st"
  shows "parse_status rd bo st s =
     (True,
      update_state_string
        (s\<lparr>bt := rd [st ! 36, st ! 37, st ! 38, st ! 39],
           bt_ror := rd [st ! 4, st ! 5, st ! 6, st ! 7],
           dt := rd [st ! 8, st ! 9, st ! 10, st ! 11],
           fan := uint (st ! 26),
           heater := uint (st ! 27),
           drum := uint (st ! 28),
           state := uint (st ! 29),
           fan_rpm := (case bo of Little \<Rightarrow> int16 (st ! 45) (st ! 44)
                       | Big \<Rightarrow> int16 (st ! 44) (st ! 45)),
           voltage := (case bo of Little \<Rightarrow> int16 (st ! 49) (st ! 48)
                       | Big \<Rightarrow> int16 (st ! 48) (st ! 49))\<rparr>))"
proof -
  have f1: "slice st 36 40 = [st ! 36, st ! 37, st ! 38, st ! 39]"
    using assms slice_four [of 36 st] by simp
  have f2: "slice st 4 8 = [st ! 4, st ! 5, st ! 6, st ! 7]"
    using assms slice_four [of 4 st] by simp
  have f3: "slice st 8 12 = [st ! 8, st ! 9, st ! 10, st ! 11]"
    using assms slice_four [of 8 st] by simp
  have h1: "slice st 44 46 = [st ! 44, st ! 45]"
    using assms slice_pair [of 44 st] by simp
  have h2: "slice st 48 50 = [st ! 48, st ! 49]"
    using assms slice_pair [of 48 st] by simp
  show ?thesis
    using assms
    by (simp add: parse_status_def f1 f2 f3 h1 h2 unpack_f_def unpack_h_def index_def Let_def)
qed

lemma process_command_queue_state:
  "fst (process_command_queue s) =
     s\<lparr>command_queue := (case command_queue s of [] \<Rightarrow> [] | c # q \<Rightarrow> q)\<rparr>"
  by (simp add: process_command_queue_def split: list.splits)

lemma process_command_queue_events:
  "snd (process_command_queue s) =
     (case command_queue s of
        [] \<Rightarrow> []
      | c # q \<Rightarrow> (if usbhandle s then [Write c] else []) @ [Sleep])"
  by (simp add: process_command_queue_def send_command_def split: list.splits)

lemma update_readings_parts:
  "update_readings rd bo now r1 r2 s =
     (fst (update_status rd bo now r1 r2 (fst (process_command_queue s))),
      fst (snd (update_status rd bo now r1 r2 (fst (process_command_queue s)))),
      snd (process_command_queue s)
        @ snd (snd (update_status rd bo now r1 r2 (fst (process_command_queue s)))))"
  by (simp add: update_readings_def split_beta)

lemma update_status_cases:
  obtains
    (gated) "now - last_status_update s < status_update_interval s"
      "update_status rd bo now r1 r2 s = (False, s, [])"
  | (no_handle) "\<not> now - last_status_update s < status_update_interval s" "\<not> usbhandle s"
      "update_status rd bo now r1 r2 s = (False, s\<lparr>last_status_update := now\<rparr>, [])"
  | (rejected) "\<not> now - last_status_update s < status_update_interval s" "usbhandle s"
      "update_status rd bo now r1 r2 s =
         (False, s\<lparr>last_status_update := now\<rparr>, status_round_trip)"
  | (parsed) a1 a2 where
      "\<not> now - last_status_update s < status_update_interval s" "usbhandle s"
      "r1 = Some a1" "r2 = Some a2" "a1 \<noteq> []" "a2 \<noteq> []"
      "41 < length (a1 @ a2)" "(a1 @ a2) ! 41 = 10"
      "update_status rd bo now r1 r2 s =
         (fst (parse_status rd bo (a1 @ a2) (s\<lparr>last_status_update := now\<rparr>)),
          snd (parse_status rd bo (a1 @ a2) (s\<lparr>last_status_update := now\<rparr>)),
          status_round_trip)"
proof (cases "now - last_status_update s < status_update_interval s")
  case True
  then show ?thesis using gated update_status_gated by blast
next
  case ng: False
  show ?thesis
  proof (cases "usbhandle s")
    case False
    with ng show ?thesis using no_handle update_status_no_handle by blast
  next
    case h: True
    show ?thesis
    proof (cases "truthy r1 \<and> truthy r2")
      case False
      then have "\<not> truthy r1 \<or> \<not> truthy r2" by simp
      from update_status_falsy [OF ng h this] ng h show ?thesis
        using rejected by blast
    next
      case True
      then obtain a1 a2 where r: "r1 = Some a1" "r2 = Some a2" "a1 \<noteq> []" "a2 \<noteq> []"
        by (auto simp add: truthy_def split: option.splits)
      show ?thesis
      proof (cases "41 < length (a1 @ a2) \<and> (a1 @ a2) ! 41 = 10")
        case True
        with update_status_valid [OF ng h r(3) r(4), of rd bo] r ng h show ?thesis
          using parsed by blast
      next
        case False
        then have "length (a1 @ a2) \<le> 41 \<or> (a1 @ a2) ! 41 \<noteq> 10" by auto
        from update_status_invalid [OF ng h this, of rd bo] r ng h show ?thesis
          using rejected by blast
      qed
    qed
  qed
qed

lemma update_status_events:
  "snd (snd (update_status rd bo now r1 r2 s)) =
     (if usbhandle s \<and> \<not> now - last_status_update s < status_update_interval s
      then status_round_trip else [])"
  by (cases rule: update_status_cases [of now s rd bo r1 r2]) simp_all

lemma update_status_timestamp:
  "last_status_update (fst (snd (update_status rd bo now r1 r2 s))) =
     (if now - last_status_update s < status_update_interval s then last_status_update s
      else now)"
  by (cases rule: update_status_cases [of now s rd bo r1 r2])
     (simp_all add: parse_status_frame)

lemma update_status_frame:
  "usbhandle (fst (snd (update_status rd bo now r1 r2 s))) = usbhandle s
   \<and> command_queue (fst (snd (update_status rd bo now r1 r2 s))) = command_queue s
   \<and> status_update_interval (fst (snd (update_status rd bo now r1 r2 s)))
       = status_update_interval s"
  by (cases rule: update_status_cases [of now s rd bo r1 r2])
     (simp_all add: parse_status_frame)

subsection \<open>The tick\<close>

text \<open>
  C3, as stated, fails: \<^verbatim>\<open>update_readings\<close> calls \<^verbatim>\<open>_update_status\<close> after the
  drain whatever the drain did. With one command queued and the poll interval elapsed,
  one tick transmits the command, sleeps, and then sends both status requests and issues
  both reads.
\<close>

theorem tick_drain_and_poll_counterexample:
  "update_readings (\<lambda>b. 0::rat) Little 1 None None
     ((init 0)\<lparr>usbhandle := True, command_queue := [AILLIO_CMD_HEATER_INCR]\<rparr>)
   = (False, (init 0)\<lparr>usbhandle := True, last_status_update := 1\<rparr>,
      [Write AILLIO_CMD_HEATER_INCR, Sleep,
       Write AILLIO_CMD_STATUS1, Read 64, Write AILLIO_CMD_STATUS2, Read 64])"
  by (simp add: update_readings_def process_command_queue_def update_status_def init_def
        send_command_def read_reply_def truthy_def)

text \<open>
  C3, amended: on every tick, if the queue is non-empty exactly one command, its head,
  is popped and (a handle being held) transmitted, followed by the settle delay; then,
  on the same tick and whether or not a command was drained, the status round trip is
  performed exactly when a handle is held and the minimum poll interval has elapsed.
\<close>

theorem tick_drains_then_polls:
  "snd (snd (update_readings rd bo now r1 r2 s)) =
     (case command_queue s of
        [] \<Rightarrow> []
      | c # q \<Rightarrow> (if usbhandle s then [Write c] else []) @ [Sleep])
     @ (if usbhandle s \<and> \<not> now - last_status_update s < status_update_interval s
        then status_round_trip else [])
   \<and> command_queue (fst (snd (update_readings rd bo now r1 r2 s))) =
       (case command_queue s of [] \<Rightarrow> [] | c # q \<Rightarrow> q)"
  by (simp add: update_readings_parts update_status_events update_status_frame
        process_command_queue_events process_command_queue_state)

theorem tick_drains_then_polls_witness:
  "snd (snd (update_readings (\<lambda>b. 0::rat) Little 1 None None
     ((init 0)\<lparr>usbhandle := True,
        command_queue := [AILLIO_CMD_FAN_DECR, AILLIO_CMD_FAN_DECR]\<rparr>)))
   = [Write AILLIO_CMD_FAN_DECR, Sleep,
      Write AILLIO_CMD_STATUS1, Read 64, Write AILLIO_CMD_STATUS2, Read 64]
   \<and> command_queue (fst (snd (update_readings (\<lambda>b. 0::rat) Little 1 None None
     ((init 0)\<lparr>usbhandle := True,
        command_queue := [AILLIO_CMD_FAN_DECR, AILLIO_CMD_FAN_DECR]\<rparr>))))
   = [AILLIO_CMD_FAN_DECR]"
  using tick_drains_then_polls [of "\<lambda>b. 0::rat" Little 1 None None
      "(init 0)\<lparr>usbhandle := True,
         command_queue := [AILLIO_CMD_FAN_DECR, AILLIO_CMD_FAN_DECR]\<rparr>"]
  by (simp add: init_def status_round_trip_def)

text \<open>
  C5, as stated, fails: the timestamp is assigned before the \<^verbatim>\<open>try\<close> block. With
  both reads failing, the update returns \<^verbatim>\<open>False\<close> and the timestamp has moved from
  0 to the current time 1.
\<close>

theorem poll_timestamp_counterexample:
  "update_status (\<lambda>b. 0::rat) Little 1 None None ((init 0)\<lparr>usbhandle := True\<rparr>)
   = (False, (init 0)\<lparr>usbhandle := True, last_status_update := 1\<rparr>, status_round_trip)
   \<and> last_status_update ((init (0::rat))\<lparr>usbhandle := True\<rparr>) = 0"
  by (simp add: update_status_def init_def send_command_def read_reply_def truthy_def
        status_round_trip_def)

text \<open>
  C5, amended: the timestamp records the last attempted poll. On a tick on which the
  minimum interval has elapsed it becomes the current time, whatever the replies are
  and whether or not the snapshot decodes; on a tick inside the interval it keeps its
  value. This holds for the status update and for the whole tick.
\<close>

theorem poll_timestamp_on_attempt:
  "last_status_update (fst (snd (update_status rd bo now r1 r2 s))) =
     (if now - last_status_update s < status_update_interval s then last_status_update s
      else now)
   \<and> last_status_update (fst (snd (update_readings rd bo now r1 r2 s))) =
     (if now - last_status_update s < status_update_interval s then last_status_update s
      else now)"
  by (simp add: update_readings_parts update_status_timestamp process_command_queue_state)

theorem poll_timestamp_on_attempt_witness:
  "last_status_update (fst (snd (update_status (\<lambda>b. 0::rat) Little (1 / 20) None None
      ((init 0)\<lparr>usbhandle := True\<rparr>)))) = 0
   \<and> last_status_update (fst (snd (update_readings (\<lambda>b. 0::rat) Little 5 (Some []) None
      ((init 0)\<lparr>usbhandle := True\<rparr>)))) = 5"
  using poll_timestamp_on_attempt [of "\<lambda>b. 0::rat" Little "1 / 20" None None
      "(init 0)\<lparr>usbhandle := True\<rparr>"]
    poll_timestamp_on_attempt [of "\<lambda>b. 0::rat" Little 5 "Some []" None
      "(init 0)\<lparr>usbhandle := True\<rparr>"]
  by (simp add: init_def)

text \<open>
  C8: polling is rate-limited. A tick with nothing to drain that comes less than the
  minimum interval after the recorded poll time sends nothing, reads nothing and leaves
  the object as it was. Hence of two ticks with an empty queue, the first at least the
  interval after the recorded poll time and the second less than the interval after the
  first, the first performs the one status round trip and the second performs none.
\<close>

theorem poll_rate_limited:
  "(command_queue s = [] \<longrightarrow> now - last_status_update s < status_update_interval s \<longrightarrow>
      update_readings rd bo now r1 r2 s = (False, s, []))
   \<and> (command_queue s = [] \<longrightarrow> usbhandle s \<longrightarrow>
      \<not> t1 - last_status_update s < status_update_interval s \<longrightarrow>
      t2 - t1 < status_update_interval s \<longrightarrow>
      snd (snd (update_readings rd bo t1 r1 r2 s)) = status_round_trip
      \<and> update_readings rd bo t2 r3 r4 (fst (snd (update_readings rd bo t1 r1 r2 s)))
          = (False, fst (snd (update_readings rd bo t1 r1 r2 s)), []))"
proof (intro conjI impI)
  assume q: "command_queue s = []"
    and g: "now - last_status_update s < status_update_interval s"
  from q have "process_command_queue s = (s, [])"
    by (simp add: process_command_queue_def)
  with g show "update_readings rd bo now r1 r2 s = (False, s, [])"
    by (simp add: update_readings_def update_status_gated)
next
  assume q: "command_queue s = []" and h: "usbhandle s"
    and e: "\<not> t1 - last_status_update s < status_update_interval s"
    and g: "t2 - t1 < status_update_interval s"
  from q h e show "snd (snd (update_readings rd bo t1 r1 r2 s)) = status_round_trip"
    by (simp add: update_readings_parts update_status_events
          process_command_queue_events process_command_queue_state)
next
  assume q: "command_queue s = []" and h: "usbhandle s"
    and e: "\<not> t1 - last_status_update s < status_update_interval s"
    and g: "t2 - t1 < status_update_interval s"
  define s1 where "s1 = fst (snd (update_readings rd bo t1 r1 r2 s))"
  have p: "process_command_queue s = (s, [])"
    using q by (simp add: process_command_queue_def)
  have s1: "s1 = fst (snd (update_status rd bo t1 r1 r2 s))"
    by (simp add: s1_def update_readings_def p split_beta)
  have "command_queue s1 = []"
    using q by (simp add: s1 update_status_frame)
  then have p1: "process_command_queue s1 = (s1, [])"
    by (simp add: process_command_queue_def)
  have "last_status_update s1 = t1"
    using e by (simp add: s1 update_status_timestamp)
  moreover have "status_update_interval s1 = status_update_interval s"
    by (simp add: s1 update_status_frame)
  ultimately have "t2 - last_status_update s1 < status_update_interval s1"
    using g by simp
  then have "update_readings rd bo t2 r3 r4 s1 = (False, s1, [])"
    by (simp add: update_readings_def p1 update_status_gated)
  then show "update_readings rd bo t2 r3 r4 (fst (snd (update_readings rd bo t1 r1 r2 s)))
      = (False, fst (snd (update_readings rd bo t1 r1 r2 s)), [])"
    by (simp add: s1_def)
qed

theorem poll_rate_limited_witness:
  "command_queue ((init (0::rat))\<lparr>usbhandle := True\<rparr>) = []
   \<and> usbhandle ((init (0::rat))\<lparr>usbhandle := True\<rparr>)
   \<and> \<not> (1::rat) - last_status_update ((init (0::rat))\<lparr>usbhandle := True\<rparr>)
        < status_update_interval ((init (0::rat))\<lparr>usbhandle := True\<rparr>)
   \<and> (21 / 20 :: rat) - 1 < status_update_interval ((init (0::rat))\<lparr>usbhandle := True\<rparr>)
   \<and> (1 / 20 :: rat) - last_status_update ((init (0::rat))\<lparr>usbhandle := True\<rparr>)
        < status_update_interval ((init (0::rat))\<lparr>usbhandle := True\<rparr>)
   \<and> update_readings (\<lambda>b. 0::rat) Little (1 / 20) None None ((init 0)\<lparr>usbhandle := True\<rparr>)
       = (False, (init 0)\<lparr>usbhandle := True\<rparr>, [])
   \<and> snd (snd (update_readings (\<lambda>b. 0::rat) Little 1 None None
        ((init 0)\<lparr>usbhandle := True\<rparr>))) = status_round_trip
   \<and> snd (snd (update_readings (\<lambda>b. 0::rat) Little (21 / 20) None None
        (fst (snd (update_readings (\<lambda>b. 0::rat) Little 1 None None
           ((init 0)\<lparr>usbhandle := True\<rparr>)))))) = []"
  using poll_rate_limited [of "(init (0::rat))\<lparr>usbhandle := True\<rparr>" "1 / 20"
      "\<lambda>b. 0::rat" Little None None 1 "21 / 20" None None]
  by (simp add: init_def)

subsection \<open>The status model\<close>

text \<open>
  C4, as stated, fails for short replies: no length is ever checked. First, a complete
  first reply with validity byte 10 and a second reply of a single byte: every offset
  read lies in the first 50 bytes, so the snapshot is accepted and the fields are
  assigned (heater 7, fan 0, drum 0 here). Second, replies of 41 bytes and 1 byte that
  concatenate to 42 bytes with byte 41 equal to 10: the decode assigns the temperatures
  and fan, heater, drum and state, then \<^verbatim>\<open>unpack('h', state[44:46])\<close> raises on the
  empty slice, and the update returns \<^verbatim>\<open>False\<close> with those assignments in place.
\<close>

theorem short_reply_counterexample:
  "update_status (\<lambda>b. 0::rat) Little 1
     (Some (replicate 27 0 @ [7] @ replicate 13 0 @ [10] @ replicate 22 0)) (Some [0])
     ((init 0)\<lparr>usbhandle := True\<rparr>)
   = (True,
      (init 0)\<lparr>usbhandle := True, last_status_update := 1, fan := 0, heater := 7, drum := 0\<rparr>,
      status_round_trip)
   \<and> update_status (\<lambda>b. 0::rat) Little 1
     (Some (replicate 27 0 @ [7] @ replicate 13 0)) (Some [10])
     ((init 0)\<lparr>usbhandle := True\<rparr>)
   = (False,
      (init 0)\<lparr>usbhandle := True, last_status_update := 1, fan := 0, heater := 7, drum := 0\<rparr>,
      status_round_trip)
   \<and> status_model ((init (0::rat))\<lparr>usbhandle := True, last_status_update := 1, fan := 0,
        heater := 7, drum := 0\<rparr>)
       \<noteq> status_model ((init 0)\<lparr>usbhandle := True\<rparr>)"
  by code_simp

text \<open>
  C4, amended: the status update returns \<^verbatim>\<open>False\<close> and leaves every field of the
  status model at its prior value whenever a reply is missing or empty, or the two
  replies together have fewer than 42 bytes, or byte 41 of their concatenation is not
  10 (in particular for every 128-byte buffer whose validity byte is not 10), and also
  when no handle is held or the tick is inside the poll interval.
\<close>

theorem rejected_decode_keeps_status:
  assumes "now - last_status_update s < status_update_interval s \<or> \<not> usbhandle s
     \<or> r1 = None \<or> r1 = Some [] \<or> r2 = None \<or> r2 = Some []
     \<or> (\<exists>a1 a2. r1 = Some a1 \<and> r2 = Some a2
            \<and> (length (a1 @ a2) < 42 \<or> (a1 @ a2) ! 41 \<noteq> 10))"
  shows "\<not> fst (update_status rd bo now r1 r2 s)
     \<and> status_model (fst (snd (update_status rd bo now r1 r2 s))) = status_model s"
proof (cases rule: update_status_cases [of now s rd bo r1 r2])
  case gated
  then show ?thesis by simp
next
  case no_handle
  then show ?thesis by (simp add: status_model_def)
next
  case rejected
  then show ?thesis by (simp add: status_model_def)
next
  case (parsed a1 a2)
  with assms have False by auto
  then show ?thesis ..
qed

theorem rejected_decode_keeps_status_witness:
  "(replicate 64 (0::byte) @ replicate 64 0) ! 41 \<noteq> 10
   \<and> length (replicate 64 (0::byte) @ replicate 64 0) = 128
   \<and> bt (fst (snd (update_status (\<lambda>b. 0::rat) Little 1
        (Some (replicate 64 0)) (Some (replicate 64 0))
        ((init 0)\<lparr>usbhandle := True, bt := 200\<rparr>)))) = 200
   \<and> \<not> fst (update_status (\<lambda>b. 0::rat) Little 1
        (Some (replicate 64 0)) (Some (replicate 64 0))
        ((init 0)\<lparr>usbhandle := True, bt := 200\<rparr>))"
proof -
  have v: "(replicate 64 (0::byte) @ replicate 64 0) ! 41 \<noteq> 10"
    by (simp add: nth_append)
  then have "\<exists>a1 a2. Some (replicate 64 (0::byte)) = Some a1 \<and> Some (replicate 64 (0::byte)) = Some a2
      \<and> (length (a1 @ a2) < 42 \<or> (a1 @ a2) ! 41 \<noteq> 10)"
    by blast
  then have "\<not> fst (update_status (\<lambda>b. 0::rat) Little 1
        (Some (replicate 64 0)) (Some (replicate 64 0))
        ((init 0)\<lparr>usbhandle := True, bt := 200\<rparr>))
     \<and> status_model (fst (snd (update_status (\<lambda>b. 0::rat) Little 1
        (Some (replicate 64 0)) (Some (replicate 64 0))
        ((init 0)\<lparr>usbhandle := True, bt := 200\<rparr>))))
       = status_model ((init 0)\<lparr>usbhandle := True, bt := 200\<rparr>)"
    by (intro rejected_decode_keeps_status) blast
  with v show ?thesis
    by (simp add: status_model_def)
qed

text \<open>
  C6: for two replies of 64 bytes each whose concatenation has byte 41 equal to 10, a
  status update that is due decodes successfully and assigns: rate of rise from the
  float in bytes 4..7, drum temperature from the float in bytes 8..11, fan, heater,
  drum and state from the unsigned bytes 26, 27, 28 and 29, bean temperature from the
  float in bytes 36..39 (not bytes 0..3), fan RPM from the signed 16-bit value in bytes
  44..45 and voltage from the signed 16-bit value in bytes 48..49, the 16-bit values in
  the byte order of the host. \<open>rd\<close> turns four bytes into the float they encode,
  rounded to one decimal as the code does.
\<close>

theorem accepted_buffer_decoding:
  assumes "usbhandle s"
    and "\<not> now - last_status_update s < status_update_interval s"
    and "length a1 = 64" and "length a2 = 64"
    and "st = a1 @ a2" and "st ! 41 = 10"
    and "s' = fst (snd (update_status rd bo now (Some a1) (Some a2) s))"
  shows "fst (update_status rd bo now (Some a1) (Some a2) s)
     \<and> bt_ror s' = rd [st ! 4, st ! 5, st ! 6, st ! 7]
     \<and> dt s' = rd [st ! 8, st ! 9, st ! 10, st ! 11]
     \<and> fan s' = uint (st ! 26) \<and> heater s' = uint (st ! 27)
     \<and> drum s' = uint (st ! 28) \<and> state s' = uint (st ! 29)
     \<and> bt s' = rd [st ! 36, st ! 37, st ! 38, st ! 39]
     \<and> fan_rpm s' =
         signed16 (case bo of Little \<Rightarrow> uint (st ! 44) + 256 * uint (st ! 45)
                   | Big \<Rightarrow> 256 * uint (st ! 44) + uint (st ! 45))
     \<and> voltage s' =
         signed16 (case bo of Little \<Rightarrow> uint (st ! 48) + 256 * uint (st ! 49)
                   | Big \<Rightarrow> 256 * uint (st ! 48) + uint (st ! 49))"
proof -
  have n: "a1 \<noteq> []" "a2 \<noteq> []" "41 < length (a1 @ a2)" "50 \<le> length (a1 @ a2)"
    using assms(3,4) by auto
  have v: "(a1 @ a2) ! 41 = 10"
    using assms(5,6) by simp
  have u: "update_status rd bo now (Some a1) (Some a2) s =
     (fst (parse_status rd bo st (s\<lparr>last_status_update := now\<rparr>)),
      snd (parse_status rd bo st (s\<lparr>last_status_update := now\<rparr>)),
      status_round_trip)"
    using update_status_valid [OF assms(2) assms(1) n(1) n(2) n(3) v, of rd bo] assms(5)
    by simp
  have p: "parse_status rd bo st (s\<lparr>last_status_update := now\<rparr>) =
     (True,
      update_state_string
        (s\<lparr>last_status_update := now,
           bt := rd [st ! 36, st ! 37, st ! 38, st ! 39],
           bt_ror := rd [st ! 4, st ! 5, st ! 6, st ! 7],
           dt := rd [st ! 8, st ! 9, st ! 10, st ! 11],
           fan := uint (st ! 26),
           heater := uint (st ! 27),
           drum := uint (st ! 28),
           state := uint (st ! 29),
           fan_rpm := (case bo of Little \<Rightarrow> int16 (st ! 45) (st ! 44)
                       | Big \<Rightarrow> int16 (st ! 44) (st ! 45)),
           voltage := (case bo of Little \<Rightarrow> int16 (st ! 49) (st ! 48)
                       | Big \<Rightarrow> int16 (st ! 48) (st ! 49))\<rparr>))"
    using parse_status_complete [of st rd bo "s\<lparr>last_status_update := now\<rparr>"] n(4) assms(5)
    by simp
  have i: "int16 hi lo = signed16 (256 * uint hi + uint lo)" for hi lo
    by (simp add: int16_arith signed16_def)
  have l: "f (update_state_string x) = f x"
    if "\<And>y l. f (y\<lparr>state_str := l\<rparr>) = f y" for f :: "'a roaster \<Rightarrow> 'b" and x
    using that by (simp add: update_state_string_def)
  show ?thesis
    unfolding assms(7) u p
    by (cases bo) (simp_all add: l i add.commute)
qed

theorem accepted_buffer_decoding_witness:
  "fst (update_status (\<lambda>b. b) Little 1
     (Some (replicate 4 0 @ [11, 12, 13, 14, 21, 22, 23, 24] @ replicate 14 0 @ [5, 7, 3, 6]
            @ replicate 6 0 @ [31, 32, 33, 34, 0, 10, 0, 0, 0x10, 0x27, 0, 0, 0xff, 0xff]
            @ replicate 14 0))
     (Some (replicate 64 0)) ((init [])\<lparr>usbhandle := True\<rparr>))
   \<and> status_model (fst (snd (update_status (\<lambda>b. b) Little 1
     (Some (replicate 4 0 @ [11, 12, 13, 14, 21, 22, 23, 24] @ replicate 14 0 @ [5, 7, 3, 6]
            @ replicate 6 0 @ [31, 32, 33, 34, 0, 10, 0, 0, 0x10, 0x27, 0, 0, 0xff, 0xff]
            @ replicate 14 0))
     (Some (replicate 64 0)) ((init [])\<lparr>usbhandle := True\<rparr>))))
     = ([31, 32, 33, 34], [11, 12, 13, 14], [21, 22, 23, 24], 5, 7, 3, 6, ''roasting'',
        10000, - 1)"
proof -
  define a1 :: "byte list" where
    "a1 = replicate 4 0 @ [11, 12, 13, 14, 21, 22, 23, 24] @ replicate 14 0 @ [5, 7, 3, 6]
            @ replicate 6 0 @ [31, 32, 33, 34, 0, 10, 0, 0, 0x10, 0x27, 0, 0, 0xff, 0xff]
            @ replicate 14 0"
  define s0 :: "byte list roaster" where "s0 = (init [])\<lparr>usbhandle := True\<rparr>"
  have e: "a1 = [0, 0, 0, 0, 11, 12, 13, 14, 21, 22, 23, 24, 0, 0, 0, 0, 0, 0, 0, 0, 0, 0, 0, 0,
      0, 0, 5, 7, 3, 6, 0, 0, 0, 0, 0, 0, 31, 32, 33, 34, 0, 10, 0, 0, 0x10, 0x27, 0, 0,
      0xff, 0xff, 0, 0, 0, 0, 0, 0, 0, 0, 0, 0, 0, 0, 0, 0]"
    unfolding a1_def by code_simp
  have h1: "usbhandle s0" by (simp add: s0_def)
  have h2: "\<not> 1 - last_status_update s0 < status_update_interval s0"
    by (simp add: s0_def init_def)
  have h3: "length a1 = 64" by (simp add: a1_def)
  have h4: "length (replicate 64 (0::byte)) = 64" by simp
  have h6: "(a1 @ replicate 64 0) ! 41 = 10" by (simp add: e)
  have sl: "state_str (fst (snd (update_status (\<lambda>b. b) Little 1 (Some a1)
      (Some (replicate 64 0)) s0))) = ''roasting''"
    unfolding a1_def s0_def by code_simp
  from accepted_buffer_decoding [OF h1 h2 h3 h4 refl h6 refl, of "\<lambda>b. b" Little] sl
  show ?thesis
    unfolding a1_def [symmetric] s0_def [symmetric]
    by (simp add: status_model_def signed16_def e)
qed

text \<open>
  C9: the label update is total and never fails. For each of the six known states it
  sets the label of the table; for every other state value it changes nothing, so the
  label held before stays. It never touches any other field. Through the decode: a
  buffer of at least 50 bytes always decodes, whatever byte 29 is, and an unknown
  byte 29 leaves the label as it was.
\<close>

theorem state_label_mapping:
  "state_str (update_state_string s) =
     (case map_of state_labels (state s) of Some l \<Rightarrow> l | None \<Rightarrow> state_str s)
   \<and> update_state_string s = s\<lparr>state_str := state_str (update_state_string s)\<rparr>
   \<and> (state s \<notin> {0x00, 0x02, 0x04, 0x06, 0x08, 0x09} \<longrightarrow> update_state_string s = s)
   \<and> (50 \<le> length st \<longrightarrow>
        fst (parse_status rd bo st s)
        \<and> state (snd (parse_status rd bo st s)) = uint (st ! 29)
        \<and> (uint (st ! 29) \<notin> {0x00, 0x02, 0x04, 0x06, 0x08, 0x09} \<longrightarrow>
             state_str (snd (parse_status rd bo st s)) = state_str s))"
proof (intro conjI impI)
  show "state_str (update_state_string s) =
     (case map_of state_labels (state s) of Some l \<Rightarrow> l | None \<Rightarrow> state_str s)"
    by (simp add: update_state_string_def state_labels_def AILLIO_STATE_OFF_def
          AILLIO_STATE_PH_def AILLIO_STATE_CHARGE_def AILLIO_STATE_ROASTING_def
          AILLIO_STATE_COOLING_def AILLIO_STATE_SHUTDOWN_def)
  show "update_state_string s = s\<lparr>state_str := state_str (update_state_string s)\<rparr>"
    by (simp add: update_state_string_def)
  show "update_state_string s = s" if "state s \<notin> {0x00, 0x02, 0x04, 0x06, 0x08, 0x09}"
    using that
    by (simp add: update_state_string_def AILLIO_STATE_OFF_def
          AILLIO_STATE_PH_def AILLIO_STATE_CHARGE_def AILLIO_STATE_ROASTING_def
          AILLIO_STATE_COOLING_def AILLIO_STATE_SHUTDOWN_def)
next
  assume "50 \<le> length st"
  then show "fst (parse_status rd bo st s)"
    by (simp add: parse_status_complete)
next
  assume "50 \<le> length st"
  then show "state (snd (parse_status rd bo st s)) = uint (st ! 29)"
    by (simp add: parse_status_complete update_state_string_def)
next
  assume "50 \<le> length st"
    and "uint (st ! 29) \<notin> {0x00, 0x02, 0x04, 0x06, 0x08, 0x09}"
  then show "state_str (snd (parse_status rd bo st s)) = state_str s"
    by (simp add: parse_status_complete update_state_string_def AILLIO_STATE_OFF_def
          AILLIO_STATE_PH_def AILLIO_STATE_CHARGE_def AILLIO_STATE_ROASTING_def
          AILLIO_STATE_COOLING_def AILLIO_STATE_SHUTDOWN_def)
qed

text \<open>The scenario of the specification: state byte 0x0A, label ``roasting'' held.\<close>

theorem state_label_mapping_witness:
  "update_state_string ((init (0::rat))\<lparr>state := 0x0A, state_str := ''roasting''\<rparr>)
     = (init 0)\<lparr>state := 0x0A, state_str := ''roasting''\<rparr>
   \<and> state_str (update_state_string ((init (0::rat))\<lparr>state := 0x06\<rparr>)) = ''roasting''
   \<and> fst (parse_status (\<lambda>b. 0::rat) Little (replicate 29 0 @ [0x0A] @ replicate 20 0)
        ((init 0)\<lparr>state_str := ''roasting''\<rparr>))
   \<and> state (snd (parse_status (\<lambda>b. 0::rat) Little (replicate 29 0 @ [0x0A] @ replicate 20 0)
        ((init 0)\<lparr>state_str := ''roasting''\<rparr>))) = 0x0A
   \<and> state_str (snd (parse_status (\<lambda>b. 0::rat) Little (replicate 29 0 @ [0x0A] @ replicate 20 0)
        ((init 0)\<lparr>state_str := ''roasting''\<rparr>))) = ''roasting''"
proof -
  have k: "(replicate 29 (0::byte) @ [0x0A] @ replicate 20 0) ! 29 = 0x0A"
    by (simp add: nth_append)
  have m: "state ((init (0::rat))\<lparr>state := 0x0A, state_str := ''roasting''\<rparr>)
      \<notin> {0x00, 0x02, 0x04, 0x06, 0x08, 0x09}"
    by simp
  from state_label_mapping [of "(init (0::rat))\<lparr>state := 0x0A, state_str := ''roasting''\<rparr>"
      "[]" "\<lambda>b. 0::rat" Little] m
  have a: "update_state_string ((init (0::rat))\<lparr>state := 0x0A, state_str := ''roasting''\<rparr>)
     = (init 0)\<lparr>state := 0x0A, state_str := ''roasting''\<rparr>"
    by blast
  from state_label_mapping [of "(init (0::rat))\<lparr>state := 0x06\<rparr>" "[]" "\<lambda>b. 0::rat" Little]
  have b: "state_str (update_state_string ((init (0::rat))\<lparr>state := 0x06\<rparr>)) = ''roasting''"
    by (simp add: state_labels_def)
  from state_label_mapping [of "(init (0::rat))\<lparr>state_str := ''roasting''\<rparr>"
      "replicate 29 0 @ [0x0A] @ replicate 20 0" "\<lambda>b. 0::rat" Little] k
  have c: "fst (parse_status (\<lambda>b. 0::rat) Little (replicate 29 0 @ [0x0A] @ replicate 20 0)
        ((init 0)\<lparr>state_str := ''roasting''\<rparr>))
   \<and> state (snd (parse_status (\<lambda>b. 0::rat) Little (replicate 29 0 @ [0x0A] @ replicate 20 0)
        ((init 0)\<lparr>state_str := ''roasting''\<rparr>))) = 0x0A
   \<and> state_str (snd (parse_status (\<lambda>b. 0::rat) Little (replicate 29 0 @ [0x0A] @ replicate 20 0)
        ((init 0)\<lparr>state_str := ''roasting''\<rparr>))) = ''roasting''"
    by simp
  from a b c show ?thesis by blast
qed

text \<open>
  C7, as stated, fails for the status decode: it assigns the bytes of the reply as they
  come. From the initial ranges, an accepted buffer with byte 27 equal to 200 leaves a
  held heater of 200.
\<close>

theorem decode_range_counterexample:
  "setpoints_in_range ((init (0::rat))\<lparr>usbhandle := True\<rparr>)
   \<and> fst (update_status (\<lambda>b. 0::rat) Little 1
        (Some (replicate 27 0 @ [200] @ replicate 13 0 @ [10] @ replicate 22 0))
        (Some (replicate 64 0)) ((init 0)\<lparr>usbhandle := True\<rparr>))
   \<and> heater (fst (snd (update_status (\<lambda>b. 0::rat) Little 1
        (Some (replicate 27 0 @ [200] @ replicate 13 0 @ [10] @ replicate 22 0))
        (Some (replicate 64 0)) ((init 0)\<lparr>usbhandle := True\<rparr>)))) = 200
   \<and> \<not> setpoints_in_range (fst (snd (update_status (\<lambda>b. 0::rat) Little 1
        (Some (replicate 27 0 @ [200] @ replicate 13 0 @ [10] @ replicate 22 0))
        (Some (replicate 64 0)) ((init 0)\<lparr>usbhandle := True\<rparr>))))"
  by code_simp

lemma parse_status_byte_range:
  "setpoints_in_byte_range s \<Longrightarrow> setpoints_in_byte_range (snd (parse_status rd bo st s))"
proof -
  have b: "0 \<le> uint w \<and> uint w \<le> 255" for w :: byte
    using uint_bounded [of w] by simp
  show "setpoints_in_byte_range s \<Longrightarrow> setpoints_in_byte_range (snd (parse_status rd bo st s))"
    by (simp add: parse_status_def setpoints_in_byte_range_def update_state_string_def
          Let_def b split: sum.splits)
qed

text \<open>
  C7, amended: the initial object has heater in 0..9, fan in 1..12 and drum in 1..9.
  Every setter call that returns leaves its own field inside its range, by clamping,
  and preserves the three ranges; the command drain preserves them too. The status
  decode does not clamp: a tick keeps heater, fan and drum only within 0..255, the
  range of the bytes it copies.
\<close>

theorem setters_keep_ranges:
  "setpoints_in_range (init z)
   \<and> (set_heater v s = Inr sh \<longrightarrow>
        0 \<le> heater sh \<and> heater sh \<le> 9
        \<and> (setpoints_in_range s \<longrightarrow> setpoints_in_range sh))
   \<and> (set_fan v s = Inr sf \<longrightarrow>
        1 \<le> fan sf \<and> fan sf \<le> 12
        \<and> (setpoints_in_range s \<longrightarrow> setpoints_in_range sf))
   \<and> (set_drum v s = Inr sd \<longrightarrow>
        1 \<le> drum sd \<and> drum sd \<le> 9
        \<and> (setpoints_in_range s \<longrightarrow> setpoints_in_range sd))
   \<and> (setpoints_in_range s \<longrightarrow> setpoints_in_range (fst (process_command_queue s)))
   \<and> (setpoints_in_range s \<longrightarrow>
        setpoints_in_byte_range (fst (snd (update_readings rd bo now r1 r2 s))))"
proof (intro conjI impI)
  show "setpoints_in_range (init z)"
    by (simp add: setpoints_in_range_def init_def)
next
  assume a: "set_heater v s = Inr sh"
  then show "0 \<le> heater sh" and "heater sh \<le> 9"
    by (auto simp add: set_heater_def Let_def split: sum.splits if_splits)
  assume "setpoints_in_range s"
  with a show "setpoints_in_range sh"
    by (auto simp add: set_heater_def setpoints_in_range_def Let_def
          split: sum.splits if_splits)
next
  assume a: "set_fan v s = Inr sf"
  then show "1 \<le> fan sf" and "fan sf \<le> 12"
    by (auto simp add: set_fan_def Let_def split: sum.splits if_splits)
  assume "setpoints_in_range s"
  with a show "setpoints_in_range sf"
    by (auto simp add: set_fan_def setpoints_in_range_def Let_def
          split: sum.splits if_splits)
next
  assume a: "set_drum v s = Inr sd"
  then show "1 \<le> drum sd" and "drum sd \<le> 9"
    by (auto simp add: set_drum_def Let_def split: sum.splits)
  assume "setpoints_in_range s"
  with a show "setpoints_in_range sd"
    by (auto simp add: set_drum_def setpoints_in_range_def Let_def split: sum.splits)
next
  assume "setpoints_in_range s"
  then show "setpoints_in_range (fst (process_command_queue s))"
    by (simp add: process_command_queue_state setpoints_in_range_def)
next
  assume "setpoints_in_range s"
  then have b: "setpoints_in_byte_range (fst (process_command_queue s))"
    by (simp add: process_command_queue_state setpoints_in_range_def
          setpoints_in_byte_range_def)
  define s1 where "s1 = fst (process_command_queue s)"
  have "setpoints_in_byte_range (fst (snd (update_status rd bo now r1 r2 s1)))"
  proof (cases rule: update_status_cases [of now s1 rd bo r1 r2])
    case gated
    with b show ?thesis by (simp add: s1_def)
  next
    case no_handle
    with b show ?thesis by (simp add: s1_def setpoints_in_byte_range_def)
  next
    case rejected
    with b show ?thesis by (simp add: s1_def setpoints_in_byte_range_def)
  next
    case (parsed a1 a2)
    from b have "setpoints_in_byte_range (s1\<lparr>last_status_update := now\<rparr>)"
      by (simp add: s1_def setpoints_in_byte_range_def)
    then have "setpoints_in_byte_range
        (snd (parse_status rd bo (a1 @ a2) (s1\<lparr>last_status_update := now\<rparr>)))"
      by (rule parse_status_byte_range)
    moreover from parsed(9) have "fst (snd (update_status rd bo now r1 r2 s1))
        = snd (parse_status rd bo (a1 @ a2) (s1\<lparr>last_status_update := now\<rparr>))"
      by simp
    ultimately show ?thesis by simp
  qed
  then show "setpoints_in_byte_range (fst (snd (update_readings rd bo now r1 r2 s)))"
    by (simp add: update_readings_parts s1_def)
qed

theorem setters_keep_ranges_witness:
  "setpoints_in_range (init (0::rat))
   \<and> set_heater (Finite 20) (init (0::rat))
       = Inr ((init 0)\<lparr>command_queue := replicate 9 AILLIO_CMD_HEATER_INCR, heater := 9\<rparr>)
   \<and> setpoints_in_range
       ((init (0::rat))\<lparr>command_queue := replicate 9 AILLIO_CMD_HEATER_INCR, heater := 9\<rparr>)
   \<and> set_fan (Finite (- 3)) ((init (0::rat))\<lparr>fan := 2\<rparr>)
       = Inr ((init 0)\<lparr>command_queue := [AILLIO_CMD_FAN_DECR], fan := 1\<rparr>)
   \<and> setpoints_in_range ((init (0::rat))\<lparr>command_queue := [AILLIO_CMD_FAN_DECR], fan := 1\<rparr>)
   \<and> set_drum (Finite 100) (init (0::rat))
       = Inr ((init 0)\<lparr>command_queue := [[0x32, 0x01, 9, 0x00]], drum := 9\<rparr>)
   \<and> setpoints_in_range ((init (0::rat))\<lparr>command_queue := [[0x32, 0x01, 9, 0x00]], drum := 9\<rparr>)
   \<and> setpoints_in_range (fst (process_command_queue (init (0::rat))))
   \<and> setpoints_in_byte_range (fst (snd (update_readings (\<lambda>b. 0::rat) Little 1
        (Some (replicate 27 0 @ [200] @ replicate 13 0 @ [10] @ replicate 22 0))
        (Some (replicate 64 0)) ((init 0)\<lparr>usbhandle := True\<rparr>))))"
proof -
  have i: "setpoints_in_range (init (0::rat))"
    and j: "setpoints_in_range ((init (0::rat))\<lparr>fan := 2\<rparr>)"
    and k: "setpoints_in_range ((init (0::rat))\<lparr>usbhandle := True\<rparr>)"
    by code_simp+
  have h: "set_heater (Finite 20) (init (0::rat))
       = Inr ((init 0)\<lparr>command_queue := replicate 9 AILLIO_CMD_HEATER_INCR, heater := 9\<rparr>)"
    by code_simp
  have f: "set_fan (Finite (- 3)) ((init (0::rat))\<lparr>fan := 2\<rparr>)
       = Inr ((init 0)\<lparr>command_queue := [AILLIO_CMD_FAN_DECR], fan := 1\<rparr>)"
    by code_simp
  have d: "set_drum (Finite 100) (init (0::rat))
       = Inr ((init 0)\<lparr>command_queue := [[0x32, 0x01, 9, 0x00]], drum := 9\<rparr>)"
    by code_simp
  note t = setters_keep_ranges [of "0::rat"]
  from t [where v = "Finite 20" and s = "init 0"] h i
  have 1: "setpoints_in_range
       ((init (0::rat))\<lparr>command_queue := replicate 9 AILLIO_CMD_HEATER_INCR, heater := 9\<rparr>)"
    by blast
  from t [where v = "Finite (- 3)" and s = "(init 0)\<lparr>fan := 2\<rparr>"] f j
  have 2: "setpoints_in_range ((init (0::rat))\<lparr>command_queue := [AILLIO_CMD_FAN_DECR], fan := 1\<rparr>)"
    by blast
  from t [where v = "Finite 100" and s = "init 0"] d i
  have 3: "setpoints_in_range ((init (0::rat))\<lparr>command_queue := [[0x32, 0x01, 9, 0x00]], drum := 9\<rparr>)"
    by blast
  from t [where s = "init 0"] i
  have 4: "setpoints_in_range (fst (process_command_queue (init (0::rat))))"
    by blast
  from t [where s = "(init 0)\<lparr>usbhandle := True\<rparr>" and rd = "\<lambda>b. 0::rat" and bo = Little
      and now = 1
      and ?r1.0 = "Some (replicate 27 0 @ [200] @ replicate 13 0 @ [10] @ replicate 22 0)"
      and ?r2.0 = "Some (replicate 64 0)"] k
  have 5: "setpoints_in_byte_range (fst (snd (update_readings (\<lambda>b. 0::rat) Little 1
        (Some (replicate 27 0 @ [200] @ replicate 13 0 @ [10] @ replicate 22 0))
        (Some (replicate 64 0)) ((init 0)\<lparr>usbhandle := True\<rparr>))))"
    by blast
  from i h 1 f 2 d 3 4 5 show ?thesis by blast
qed

end
